theory Spec2Isabelle
  imports Complex_Main "HOL-Library.Word" "HOL-Library.Sublist"
begin

section \<open>Modelling conventions\<close>

text \<open>
  The development embeds the package \<^verbatim>\<open>power\<close> of powermon: the rolling history of
  readings (\<^verbatim>\<open>History\<close>) and the parsers of the three platform monitors.

  \<^item> A Go \<^verbatim>\<open>float64\<close> is a \<open>real\<close>: arithmetic is exact, and rounding, infinities and
    NaN are outside the model.
  \<^item> A \<^verbatim>\<open>time.Time\<close> is an \<open>int\<close>, the instant in nanoseconds on one time line; a
    \<^verbatim>\<open>time.Duration\<close> is an \<open>int\<close> of nanoseconds in the range of \<^verbatim>\<open>int64\<close>, and its
    negation wraps as \<^verbatim>\<open>int64\<close> does.  The saturation of \<^verbatim>\<open>Time.Add\<close> at the ends of
    the representable range is outside the model.
  \<^item> A Go \<^verbatim>\<open>string\<close> is a \<open>string\<close>, a list of bytes.
  \<^item> A mutated receiver or pointer argument is passed in and returned.
  \<^item> A panic is the left summand of a sum type.
\<close>

section \<open>Readings and the history buffer\<close>

record Reading =
  Watts :: real
  Timestamp :: int
  IsOnBattery :: bool
  BatteryPercent :: real
  IsCharging :: bool
  Source :: string

record History =
  readings :: "Reading list"
  maxSize :: int
  windowSize :: int

datatype panic = MakesliceCapOutOfRange

text \<open>
  \<^verbatim>\<open>NewHistory\<close> allocates \<^verbatim>\<open>make([]Reading, 0, maxSize)\<close>, which panics on a negative
  capacity.
\<close>

definition NewHistory :: "int \<Rightarrow> int \<Rightarrow> panic + History" where
  "NewHistory maxSize' windowSize' =
     (if maxSize' < 0 then Inl MakesliceCapOutOfRange
      else Inr \<lparr>readings = [], maxSize = maxSize', windowSize = windowSize'\<rparr>)"

text \<open>Unary minus on a \<^verbatim>\<open>time.Duration\<close> (an \<^verbatim>\<open>int64\<close>): the least value is its own negation.\<close>

definition negDuration :: "int \<Rightarrow> int" where
  "negDuration d = (if d = - (2 ^ 63) then d else - d)"

definition timeAdd :: "int \<Rightarrow> int \<Rightarrow> int" where
  "timeAdd t d = t + d"

definition timeAfter :: "int \<Rightarrow> int \<Rightarrow> bool" where
  "timeAfter t u = (u < t)"

text \<open>
  The loop of \<^verbatim>\<open>prune\<close>: \<open>pruneStartIdx cutoff rs i\<close> is the value of \<^verbatim>\<open>startIdx\<close> when
  the range loop has the readings \<open>rs\<close> left to visit, the first of them at index \<open>i\<close>.
\<close>

fun pruneStartIdx :: "int \<Rightarrow> Reading list \<Rightarrow> nat \<Rightarrow> nat" where
  "pruneStartIdx cutoff [] i = i"
| "pruneStartIdx cutoff (r # rs) i =
     (if timeAfter (Timestamp r) cutoff then i else pruneStartIdx cutoff rs (i + 1))"

definition prune :: "History \<Rightarrow> int \<Rightarrow> History" where
  "prune h now =
     (let cutoff = timeAdd now (negDuration (windowSize h));
          startIdx = pruneStartIdx cutoff (readings h) 0
      in if startIdx > 0 \<and> startIdx \<le> length (readings h)
         then h\<lparr>readings := drop startIdx (readings h)\<rparr>
         else h)"

definition Add :: "History \<Rightarrow> Reading \<Rightarrow> History" where
  "Add h r =
     (let h1 = prune h (Timestamp r);
          h2 = h1\<lparr>readings := readings h1 @ [r]\<rparr>
      in if int (length (readings h2)) > maxSize h2
         then h2\<lparr>readings := drop 1 (readings h2)\<rparr>
         else h2)"

definition Len :: "History \<Rightarrow> nat" where
  "Len h = length (readings h)"

definition Latest :: "History \<Rightarrow> Reading option" where
  "Latest h =
     (if length (readings h) = 0 then None
      else Some (readings h ! (length (readings h) - 1)))"

definition Clear :: "History \<Rightarrow> History" where
  "Clear h = h\<lparr>readings := take 0 (readings h)\<rparr>"

text \<open>
  The loop of \<^verbatim>\<open>Trend\<close>, with the four running sums \<^verbatim>\<open>sumX\<close>, \<^verbatim>\<open>sumY\<close>, \<^verbatim>\<open>sumXY\<close> and
  \<^verbatim>\<open>sumX2\<close> as the accumulator and \<open>i\<close> the index of the next reading.
\<close>

fun trendSums :: "Reading list \<Rightarrow> nat \<Rightarrow> real \<times> real \<times> real \<times> real \<Rightarrow> real \<times> real \<times> real \<times> real" where
  "trendSums [] i acc = acc"
| "trendSums (r # rs) i (sumX, sumY, sumXY, sumX2) =
     (let x = real i; y = Watts r
      in trendSums rs (i + 1) (sumX + x, sumY + y, sumXY + x * y, sumX2 + x * x))"

text \<open>
  The local \<^verbatim>\<open>denominator\<close> of \<^verbatim>\<open>Trend\<close>: \<open>n\<close> times the sum of the squared indices, minus
  the square of their sum.
\<close>

definition trendDenominator :: "History \<Rightarrow> real" where
  "trendDenominator h =
     (case trendSums (readings h) 0 (0, 0, 0, 0) of
        (sumX, sumY, sumXY, sumX2) \<Rightarrow> real (length (readings h)) * sumX2 - sumX * sumX)"

definition Trend :: "History \<Rightarrow> real" where
  "Trend h =
     (let n = length (readings h)
      in if n < 2 then 0
         else (case trendSums (readings h) 0 (0, 0, 0, 0) of
                 (sumX, sumY, sumXY, sumX2) \<Rightarrow>
                   (let nf = real n;
                        denominator = nf * sumX2 - sumX * sumX
                    in if denominator = 0 then 0
                       else (nf * sumXY - sumX * sumY) / denominator)))"

text \<open>
  The specification of \<^verbatim>\<open>Trend\<close>, a least-squares fit: \<open>squaredError ys a b\<close> is the
  sum of the squared residuals of the line \<open>a + b \<sdot> k\<close> on the points \<open>(k, ys ! k)\<close>,
  \<open>k = 0, \<dots>, n - 1\<close>.  The ordinary-least-squares line is the one that minimises it.
\<close>

definition squaredError :: "real list \<Rightarrow> real \<Rightarrow> real \<Rightarrow> real" where
  "squaredError ys a b = (\<Sum>k<length ys. (ys ! k - (a + b * real k)) ^ 2)"

text \<open>The intercept that goes with the slope \<^verbatim>\<open>Trend\<close> returns: the mean residual is zero.\<close>

definition trendIntercept :: "History \<Rightarrow> real" where
  "trendIntercept h =
     (case trendSums (readings h) 0 (0, 0, 0, 0) of
        (sumX, sumY, sumXY, sumX2) \<Rightarrow> (sumY - Trend h * sumX) / real (length (readings h)))"

text \<open>
  A reading as the tests build it, \<^verbatim>\<open>Reading{Watts: w, Timestamp: t}\<close>: the other fields
  have their zero values.
\<close>

definition mkReading :: "real \<Rightarrow> int \<Rightarrow> Reading" where
  "mkReading w t =
     \<lparr>Watts = w, Timestamp = t, IsOnBattery = False, BatteryPercent = 0,
      IsCharging = False, Source = []\<rparr>"

text \<open>
  The history the tests of \<^verbatim>\<open>Trend\<close> build: \<^verbatim>\<open>NewHistory(100, 5*time.Minute)\<close>, then one
  \<^verbatim>\<open>Add\<close> per value of \<open>ws\<close>, a second apart.
\<close>

definition testHistory :: "real list \<Rightarrow> History" where
  "testHistory ws =
     foldl Add \<lparr>readings = [], maxSize = 100, windowSize = 300000000000\<rparr>
       (map (\<lambda>(i, w). mkReading w (int i * 1000000000)) (enumerate 0 ws))"

section \<open>Strings and numbers of the Go library\<close>

text \<open>
  The functions of \<^verbatim>\<open>strings\<close> and \<^verbatim>\<open>strconv\<close> that the monitors call, on byte strings.
  Case mapping and white space are those of ASCII: on input with bytes above \<open>0x7F\<close>
  Go decodes UTF-8, which is outside the model.
\<close>

definition isDigit :: "char \<Rightarrow> bool" where
  "isDigit c = (c \<in> set ''0123456789'')"

definition digitVal :: "char \<Rightarrow> nat" where
  "digitVal c =
     (case map_of (zip ''0123456789'' [0, 1, 2, 3, 4, 5, 6, 7, 8, 9]) c of
        Some d \<Rightarrow> d
      | None \<Rightarrow> 0)"

text \<open>The value of a string of decimal digits, most significant digit first.\<close>

definition digitsVal :: "string \<Rightarrow> nat" where
  "digitsVal ds = foldl (\<lambda>n c. 10 * n + digitVal c) 0 ds"

text \<open>\<^verbatim>\<open>unicode.IsSpace\<close> on ASCII: tab, line feed, vertical tab, form feed, carriage return, space.\<close>

definition isSpace :: "char \<Rightarrow> bool" where
  "isSpace c = (c \<in> {CHR 0x09, CHR 0x0A, CHR 0x0B, CHR 0x0C, CHR 0x0D, CHR 0x20})"

text \<open>The class \<^verbatim>\<open>\s\<close> of Go's \<^verbatim>\<open>regexp\<close>: as above without the vertical tab.\<close>

definition isReSpace :: "char \<Rightarrow> bool" where
  "isReSpace c = (c \<in> {CHR 0x09, CHR 0x0A, CHR 0x0C, CHR 0x0D, CHR 0x20})"

definition TrimSpace :: "string \<Rightarrow> string" where
  "TrimSpace s = rev (dropWhile isSpace (rev (dropWhile isSpace s)))"

definition toLowerByte :: "char \<Rightarrow> char" where
  "toLowerByte c =
     (case map_of (zip ''ABCDEFGHIJKLMNOPQRSTUVWXYZ'' ''abcdefghijklmnopqrstuvwxyz'') c of
        Some l \<Rightarrow> l
      | None \<Rightarrow> c)"

definition ToLower :: "string \<Rightarrow> string" where
  "ToLower s = map toLowerByte s"

text \<open>\<^verbatim>\<open>strings.Contains(s, substr)\<close>.\<close>

fun Contains :: "string \<Rightarrow> string \<Rightarrow> bool" where
  "Contains [] substr = (substr = [])"
| "Contains (c # cs) substr = (prefix substr (c # cs) \<or> Contains cs substr)"

text \<open>\<^verbatim>\<open>strings.Split(s, sep)\<close> for a separator of one byte: never the empty list.\<close>

fun Split :: "string \<Rightarrow> char \<Rightarrow> string list" where
  "Split [] sep = [[]]"
| "Split (c # cs) sep =
     (if c = sep then [] # Split cs sep
      else (case Split cs sep of
              [] \<Rightarrow> [[c]]
            | l # ls \<Rightarrow> (c # l) # ls))"

text \<open>\<^verbatim>\<open>strings.SplitN(s, sep, 2)\<close> for a separator of one byte: a split at the first separator.\<close>

definition SplitN2 :: "string \<Rightarrow> char \<Rightarrow> string list" where
  "SplitN2 s sep =
     (if sep \<in> set s
      then [takeWhile (\<lambda>c. c \<noteq> sep) s, drop 1 (dropWhile (\<lambda>c. c \<noteq> sep) s)]
      else [s])"

datatype numError = ErrSyntax | ErrRange

text \<open>
  \<^verbatim>\<open>strconv.ParseUint(s, 10, 64)\<close>: a non-empty string of decimal digits, no sign, no
  underscore, of value at most \<open>2\<^sup>6\<^sup>4 - 1\<close>.
\<close>

definition ParseUint64 :: "string \<Rightarrow> numError + 64 word" where
  "ParseUint64 s =
     (if s = [] \<or> \<not> list_all isDigit s then Inl ErrSyntax
      else if digitsVal s > 2 ^ 64 - 1 then Inl ErrRange
      else Inr (word_of_nat (digitsVal s)))"

text \<open>
  \<^verbatim>\<open>strconv.Atoi\<close> where \<^verbatim>\<open>int\<close> has 64 bits: an optional sign, then a non-empty string of
  decimal digits; a value outside \<^verbatim>\<open>int64\<close> is a range error.
\<close>

definition Atoi :: "string \<Rightarrow> numError + int" where
  "Atoi s =
     (let neg = (s \<noteq> [] \<and> hd s = CHR ''-'');
          ds = (if s \<noteq> [] \<and> (hd s = CHR ''+'' \<or> hd s = CHR ''-'') then tl s else s)
      in if ds = [] \<or> \<not> list_all isDigit ds then Inl ErrSyntax
         else (let n = (if neg then - int (digitsVal ds) else int (digitsVal ds))
               in if n < - (2 ^ 63) \<or> n > 2 ^ 63 - 1 then Inl ErrRange else Inr n))"

text \<open>
  \<^verbatim>\<open>strconv.ParseFloat(s, 64)\<close> on decimal notation: an optional sign, digits with at most
  one point and at least one digit, and an optional exponent (\<^verbatim>\<open>e\<close> or \<^verbatim>\<open>E\<close>, an optional
  sign, at least one digit).  The result is the exact value.  Outside the model, where
  this function answers \<open>None\<close> or a value Go does not: the spellings of infinity and NaN,
  hexadecimal notation, underscores between digits, and the range error of a value too
  large for a \<^verbatim>\<open>float64\<close>.
\<close>

definition parseMantissa :: "string \<Rightarrow> (real \<times> string) option" where
  "parseMantissa s =
     (let ip = takeWhile isDigit s;
          r1 = dropWhile isDigit s;
          fp = (if r1 \<noteq> [] \<and> hd r1 = CHR ''.'' then takeWhile isDigit (tl r1) else []);
          r2 = (if r1 \<noteq> [] \<and> hd r1 = CHR ''.'' then dropWhile isDigit (tl r1) else r1)
      in if ip = [] \<and> fp = [] then None
         else Some (real (digitsVal (ip @ fp)) / 10 ^ length fp, r2))"

definition parseExponent :: "string \<Rightarrow> int option" where
  "parseExponent s =
     (if s = [] then Some 0
      else if hd s \<noteq> CHR ''e'' \<and> hd s \<noteq> CHR ''E'' then None
      else (let t = tl s;
                neg = (t \<noteq> [] \<and> hd t = CHR ''-'');
                ds = (if t \<noteq> [] \<and> (hd t = CHR ''+'' \<or> hd t = CHR ''-'') then tl t else t)
            in if ds = [] \<or> \<not> list_all isDigit ds then None
               else Some (if neg then - int (digitsVal ds) else int (digitsVal ds))))"

definition ParseFloat :: "string \<Rightarrow> real option" where
  "ParseFloat s =
     (let neg = (s \<noteq> [] \<and> hd s = CHR ''-'');
          body = (if s \<noteq> [] \<and> (hd s = CHR ''+'' \<or> hd s = CHR ''-'') then tl s else s)
      in case parseMantissa body of
           None \<Rightarrow> None
         | Some (m, rest) \<Rightarrow>
             (case parseExponent rest of
                None \<Rightarrow> None
              | Some e \<Rightarrow>
                  (let v = (if e < 0 then m / 10 ^ nat (- e) else m * 10 ^ nat e)
                   in Some (if neg then - v else v))))"

text \<open>
  \<^verbatim>\<open>FindStringSubmatch\<close> tries the expression at every position from the left:
  \<open>findFirst m s\<close> is the result of the matcher \<open>m\<close> at the first suffix of \<open>s\<close> where it
  matches.
\<close>

fun findFirst :: "(string \<Rightarrow> 'a option) \<Rightarrow> string \<Rightarrow> 'a option" where
  "findFirst m [] = m []"
| "findFirst m (c # cs) =
     (case m (c # cs) of
        Some r \<Rightarrow> Some r
      | None \<Rightarrow> findFirst m cs)"

text \<open>The expression \<^verbatim>\<open>key(\d+)\<close> for a literal \<open>key\<close>: the capture is the longest run of digits.\<close>

definition matchKeyDigits :: "string \<Rightarrow> string \<Rightarrow> string option" where
  "matchKeyDigits key s =
     (if prefix key s \<and> takeWhile isDigit (drop (length key) s) \<noteq> []
      then Some (takeWhile isDigit (drop (length key) s))
      else None)"


section \<open>The macOS monitor\<close>

text \<open>
  \<^verbatim>\<open>parseIoregSigned\<close>: \<^verbatim>\<open>int64(int32(v))\<close> keeps the low 32 bits and extends their sign,
  \<^verbatim>\<open>int64(v)\<close> keeps all 64 bits.  The result is an \<^verbatim>\<open>int64\<close>, read with \<open>sint\<close>; the
  comparisons are those of \<^verbatim>\<open>uint64\<close>.
\<close>

definition parseIoregSigned :: "string \<Rightarrow> 64 word option" where
  "parseIoregSigned value =
     (case ParseUint64 value of
        Inl err \<Rightarrow> None
      | Inr v \<Rightarrow>
          (if v > 0x7FFFFFFF \<and> v \<le> 0xFFFFFFFF
           then Some (scast (ucast v :: 32 word))
           else Some v))"

definition isNumChar :: "char \<Rightarrow> bool" where
  "isNumChar c = (isDigit c \<or> c = CHR ''.'')"

text \<open>
  The common tail \<^verbatim>\<open>\s*([\d.]+)\s*mW\<close> of the powermetrics expressions.  The three
  classes are disjoint, so the greedy match is the only one.
\<close>

definition matchMilliwatts :: "string \<Rightarrow> string option" where
  "matchMilliwatts s =
     (let s1 = dropWhile isReSpace s;
          cap = takeWhile isNumChar s1;
          s2 = dropWhile isReSpace (dropWhile isNumChar s1)
      in if cap \<noteq> [] \<and> prefix ''mW'' s2 then Some cap else None)"

text \<open>The expression \<^verbatim>\<open>label\s*([\d.]+)\s*mW\<close> at the head of \<open>s\<close>.\<close>

definition matchLabelPower :: "string \<Rightarrow> string \<Rightarrow> string option" where
  "matchLabelPower label s =
     (if prefix label s then matchMilliwatts (drop (length label) s) else None)"

text \<open>
  The part \<^verbatim>\<open>.*?:\s*([\d.]+)\s*mW\<close> of \<^verbatim>\<open>combinedPowerRe\<close>: the lazy \<^verbatim>\<open>.*?\<close> stops at
  the first colon after which the tail matches, and never crosses a line feed.
\<close>

fun matchLazyColon :: "string \<Rightarrow> string option" where
  "matchLazyColon [] = None"
| "matchLazyColon (c # cs) =
     (case (if c = CHR '':'' then matchMilliwatts cs else None) of
        Some cap \<Rightarrow> Some cap
      | None \<Rightarrow> if c = CHR 0x0A then None else matchLazyColon cs)"

text \<open>The capture group of each expression, \<open>None\<close> when \<^verbatim>\<open>FindStringSubmatch\<close> finds no match.\<close>

definition cpuPowerRe :: "string \<Rightarrow> string option" where
  "cpuPowerRe = findFirst (matchLabelPower ''CPU Power:'')"

definition gpuPowerRe :: "string \<Rightarrow> string option" where
  "gpuPowerRe = findFirst (matchLabelPower ''GPU Power:'')"

definition anePowerRe :: "string \<Rightarrow> string option" where
  "anePowerRe = findFirst (matchLabelPower ''ANE Power:'')"

definition packagePowerRe :: "string \<Rightarrow> string option" where
  "packagePowerRe = findFirst (matchLabelPower ''Package Power:'')"

definition combinedPowerRe :: "string \<Rightarrow> string option" where
  "combinedPowerRe =
     findFirst (\<lambda>s. if prefix ''Combined Power'' s
                    then matchLazyColon (drop (length ''Combined Power'') s)
                    else None)"

text \<open>The expression \<^verbatim>\<open>(\d+)%\<close>.\<close>

definition batteryPercentRe :: "string \<Rightarrow> string option" where
  "batteryPercentRe =
     findFirst (\<lambda>s. if takeWhile isDigit s \<noteq> [] \<and> prefix ''%'' (dropWhile isDigit s)
                    then Some (takeWhile isDigit s)
                    else None)"

text \<open>
  The step that \<^verbatim>\<open>parsePowermetrics\<close> repeats for each expression: the capture group,
  parsed as milliwatts and converted to watts; \<open>None\<close> when the expression does not match
  or the capture does not parse.
\<close>

definition submatchWatts :: "(string \<Rightarrow> string option) \<Rightarrow> string \<Rightarrow> real option" where
  "submatchWatts re output =
     (case re output of
        None \<Rightarrow> None
      | Some cap \<Rightarrow>
          (case ParseFloat cap of
             None \<Rightarrow> None
           | Some mw \<Rightarrow> Some (mw / 1000)))"

definition parsePowermetrics :: "string \<Rightarrow> real" where
  "parsePowermetrics output =
     (case submatchWatts combinedPowerRe output of
        Some w \<Rightarrow> w
      | None \<Rightarrow>
          (case submatchWatts packagePowerRe output of
             Some w \<Rightarrow> w
           | None \<Rightarrow>
               (let totalWatts = 0;
                    totalWatts = (case submatchWatts cpuPowerRe output of
                                    Some w \<Rightarrow> totalWatts + w | None \<Rightarrow> totalWatts);
                    totalWatts = (case submatchWatts gpuPowerRe output of
                                    Some w \<Rightarrow> totalWatts + w | None \<Rightarrow> totalWatts);
                    totalWatts = (case submatchWatts anePowerRe output of
                                    Some w \<Rightarrow> totalWatts + w | None \<Rightarrow> totalWatts)
                in totalWatts)))"

text \<open>
  For the statement of the sum: the watts of an optional component, an absent one counting
  as zero.
\<close>

definition wattsOrZero :: "real option \<Rightarrow> real" where
  "wattsOrZero w = (case w of None \<Rightarrow> 0 | Some x \<Rightarrow> x)"

text \<open>
  Reports for \<^verbatim>\<open>parsePowermetrics\<close>: the combined total beside the CPU power; the package
  total beside the CPU power, as in the repository's test; the CPU and GPU powers alone;
  and the test's report with no power field.
\<close>

definition reportCombined :: string where
  "reportCombined = ''CPU Power: 3000 mW'' @ [CHR 0x0A] @ ''Combined Power (CPU + GPU + ANE): 5432 mW''"

definition reportPackage :: string where
  "reportPackage = ''CPU Power: 1234 mW'' @ [CHR 0x0A] @ ''Package Power: 8500 mW''"

definition reportCpuGpu :: string where
  "reportCpuGpu = ''CPU Power: 3000 mW'' @ [CHR 0x0A] @ ''GPU Power: 2000 mW''"

definition reportNoPower :: string where
  "reportNoPower = ''Some other output without power info''"

text \<open>The body of the loop of \<^verbatim>\<open>parsePmset\<close> over the lines of the report.\<close>

definition parsePmsetLine :: "string \<Rightarrow> Reading \<Rightarrow> Reading" where
  "parsePmsetLine line reading =
     (if Contains line ''InternalBattery'' \<or> Contains line ''%''
      then (let reading1 = (case batteryPercentRe line of
                              None \<Rightarrow> reading
                            | Some cap \<Rightarrow>
                                (case ParseFloat cap of
                                   None \<Rightarrow> reading
                                 | Some pct \<Rightarrow> reading\<lparr>BatteryPercent := pct\<rparr>));
                lineLower = ToLower line
            in if Contains lineLower ''discharging'' \<or> Contains lineLower ''not charging''
               then reading1\<lparr>IsCharging := False\<rparr>
               else if Contains lineLower ''charging''
               then reading1\<lparr>IsCharging := True\<rparr>
               else reading1)
      else reading)"

definition parsePmset :: "string \<Rightarrow> Reading \<Rightarrow> Reading" where
  "parsePmset output reading =
     (let lines = Split output (CHR 0x0A);
          reading1 = (if length lines > 0
                      then reading\<lparr>IsOnBattery := Contains (ToLower (hd lines)) ''battery power''\<rparr>
                      else reading)
      in foldl (\<lambda>r line. parsePmsetLine line r) reading1 lines)"

text \<open>Two battery lines as \<^verbatim>\<open>pmset -g batt\<close> prints them, with a tab before the percentage.\<close>

definition pmsetLineDischarging :: string where
  "pmsetLineDischarging =
     '' -InternalBattery-0 (id=1234567)'' @ [CHR 0x09] @ ''85%; discharging; 4:12 remaining''"

definition pmsetLineCharging :: string where
  "pmsetLineCharging =
     '' -InternalBattery-0 (id=1234567)'' @ [CHR 0x09] @ ''85%; charging; 0:45 remaining''"

section \<open>The Windows monitor\<close>

text \<open>
  The monitor runs two PowerShell commands.  Each is an argument of the model: \<open>Inr\<close> the
  text it printed, \<open>Inl\<close> the error of a run that failed.  \<^verbatim>\<open>time.Now()\<close> is the
  argument \<open>now\<close>.
\<close>

datatype cmdError = ExecError

text \<open>The body of the loop of \<^verbatim>\<open>parseBatteryInfo\<close> over the lines of the report.\<close>

definition parseBatteryInfoLine :: "string \<Rightarrow> Reading \<Rightarrow> Reading" where
  "parseBatteryInfoLine line0 reading =
     (let line = TrimSpace line0
      in if line = [] then reading
         else (let parts = SplitN2 line (CHR ''='')
               in if length parts \<noteq> 2 then reading
                  else (let key = TrimSpace (parts ! 0);
                            value = TrimSpace (parts ! 1)
                        in if key = ''BatteryStatus''
                           then (case Atoi value of
                                   Inl err \<Rightarrow> reading
                                 | Inr status \<Rightarrow>
                                     reading\<lparr>IsOnBattery := (status = 1),
                                       IsCharging := (status \<ge> 2 \<and> status \<le> 5 \<and> status \<noteq> 2)\<rparr>)
                           else if key = ''EstimatedChargeRemaining''
                           then (case ParseFloat value of
                                   None \<Rightarrow> reading
                                 | Some pct \<Rightarrow> reading\<lparr>BatteryPercent := pct\<rparr>)
                           else if key = ''CurrentReading''
                           then (case ParseFloat value of
                                   None \<Rightarrow> reading
                                 | Some mw \<Rightarrow>
                                     if mw > 0 then reading\<lparr>Watts := mw / 1000\<rparr> else reading)
                           else reading)))"

definition parseBatteryInfo :: "string \<Rightarrow> Reading \<Rightarrow> Reading" where
  "parseBatteryInfo output reading =
     foldl (\<lambda>r line. parseBatteryInfoLine line r) reading (Split output (CHR 0x0A))"

text \<open>
  \<^verbatim>\<open>getEstimatedWatts\<close>, from the result of its command.  The voltage is parsed and then
  dropped, as in the source.
\<close>

definition getEstimatedWatts :: "cmdError + string \<Rightarrow> cmdError + real" where
  "getEstimatedWatts cmd =
     (case cmd of
        Inl err \<Rightarrow> Inl err
      | Inr output \<Rightarrow>
          (let dischargeRate = (case findFirst (matchKeyDigits ''DischargeRate='') output of
                                  None \<Rightarrow> 0
                                | Some cap \<Rightarrow>
                                    (case ParseFloat cap of None \<Rightarrow> 0 | Some v \<Rightarrow> v / 1000));
               voltage = (case findFirst (matchKeyDigits ''Voltage='') output of
                            None \<Rightarrow> 0
                          | Some cap \<Rightarrow>
                              (case ParseFloat cap of None \<Rightarrow> 0 | Some v \<Rightarrow> v / 1000))
           in if dischargeRate > 0 then Inr dischargeRate else Inr 0))"

text \<open>\<^verbatim>\<open>WindowsMonitor.Read\<close>; its error result is always \<^verbatim>\<open>nil\<close>.\<close>

definition WindowsMonitor_Read :: "int \<Rightarrow> cmdError + string \<Rightarrow> cmdError + string \<Rightarrow> Reading" where
  "WindowsMonitor_Read now batteryCmd estimateCmd =
     (let reading = \<lparr>Watts = 0, Timestamp = now, IsOnBattery = False, BatteryPercent = - 1,
                       IsCharging = False, Source = ''windows-wmi''\<rparr>;
          reading = (case batteryCmd of
                       Inl err \<Rightarrow> reading
                     | Inr batteryInfo \<Rightarrow> parseBatteryInfo batteryInfo reading);
          reading = (case getEstimatedWatts estimateCmd of
                       Inl err \<Rightarrow> reading
                     | Inr watts \<Rightarrow> reading\<lparr>Watts := watts\<rparr>)
      in reading)"

section \<open>The Linux monitor\<close>

text \<open>
  The files under \<^verbatim>\<open>/sys/class/power_supply\<close> are a map from a path to the content of the
  file, \<open>None\<close> for a file that cannot be read.  \<^verbatim>\<open>filepath.Join\<close> is applied to a clean
  directory and a plain file name, where it puts a slash between the two.
\<close>

record LinuxMonitor =
  batteryPath :: string
  acPath :: string

type_synonym sysfs = "string \<Rightarrow> string option"

definition Join :: "string \<Rightarrow> string \<Rightarrow> string" where
  "Join dir name = dir @ ''/'' @ name"

definition readFile :: "sysfs \<Rightarrow> string \<Rightarrow> string" where
  "readFile fs path = (case fs path of None \<Rightarrow> [] | Some data \<Rightarrow> TrimSpace data)"

definition calculateBatteryPercent :: "LinuxMonitor \<Rightarrow> sysfs \<Rightarrow> real" where
  "calculateBatteryPercent m fs =
     (let energyNow = readFile fs (Join (batteryPath m) ''energy_now'');
          energyFull = readFile fs (Join (batteryPath m) ''energy_full'');
          chargeNow = readFile fs (Join (batteryPath m) ''charge_now'');
          chargeFull = readFile fs (Join (batteryPath m) ''charge_full'')
      in case (if energyNow \<noteq> [] \<and> energyFull \<noteq> []
               then (case (ParseFloat energyNow, ParseFloat energyFull) of
                       (Some now, Some full) \<Rightarrow> if full > 0 then Some ((now / full) * 100) else None
                     | _ \<Rightarrow> None)
               else None) of
           Some pct \<Rightarrow> pct
         | None \<Rightarrow>
             (case (if chargeNow \<noteq> [] \<and> chargeFull \<noteq> []
                    then (case (ParseFloat chargeNow, ParseFloat chargeFull) of
                            (Some now, Some full) \<Rightarrow> if full > 0 then Some ((now / full) * 100) else None
                          | _ \<Rightarrow> None)
                    else None) of
                Some pct \<Rightarrow> pct
              | None \<Rightarrow> - 1))"

definition calculateWatts :: "LinuxMonitor \<Rightarrow> sysfs \<Rightarrow> real" where
  "calculateWatts m fs =
     (let powerNow = readFile fs (Join (batteryPath m) ''power_now'')
      in case (if powerNow \<noteq> [] then ParseFloat powerNow else None) of
           Some p \<Rightarrow> p / 1000000
         | None \<Rightarrow>
             (let voltageNow = readFile fs (Join (batteryPath m) ''voltage_now'');
                  currentNow = readFile fs (Join (batteryPath m) ''current_now'')
              in if voltageNow \<noteq> [] \<and> currentNow \<noteq> []
                 then (case (ParseFloat voltageNow, ParseFloat currentNow) of
                         (Some voltage, Some current) \<Rightarrow>
                           (let watts = (voltage * current) / 1000000000000
                            in if watts < 0 then - watts else watts)
                       | _ \<Rightarrow> 0)
                 else 0))"

text \<open>\<^verbatim>\<open>LinuxMonitor.Read\<close>; its error result is always \<^verbatim>\<open>nil\<close>.\<close>

definition LinuxMonitor_Read :: "LinuxMonitor \<Rightarrow> sysfs \<Rightarrow> int \<Rightarrow> Reading" where
  "LinuxMonitor_Read m fs now =
     (let reading = \<lparr>Watts = 0, Timestamp = now, IsOnBattery = False, BatteryPercent = - 1,
                       IsCharging = False, Source = ''linux-sysfs''\<rparr>;
          reading = (if acPath m \<noteq> []
                     then reading\<lparr>IsOnBattery := (readFile fs (Join (acPath m) ''online'') \<noteq> ''1'')\<rparr>
                     else reading);
          reading = (if batteryPath m \<noteq> []
                     then (let capacity = readFile fs (Join (batteryPath m) ''capacity'');
                               reading = (case ParseFloat capacity of
                                            Some pct \<Rightarrow> reading\<lparr>BatteryPercent := pct\<rparr>
                                          | None \<Rightarrow>
                                              reading\<lparr>BatteryPercent := calculateBatteryPercent m fs\<rparr>);
                               status = ToLower (readFile fs (Join (batteryPath m) ''status''))
                           in reading\<lparr>IsCharging := (status = ''charging''),
                                Watts := calculateWatts m fs\<rparr>)
                     else reading)
      in reading)"


section \<open>The history buffer: pruning, capacity and the latest reading\<close>

lemma pruneStartIdx_takeWhile:
  "pruneStartIdx cutoff rs i = i + length (takeWhile (\<lambda>r. \<not> timeAfter (Timestamp r) cutoff) rs)"
  by (induction rs arbitrary: i) auto

text \<open>\<^verbatim>\<open>prune\<close> drops the longest prefix of readings that are not after the cutoff.\<close>

lemma prune_readings:
  "readings (prune h now) =
     dropWhile (\<lambda>r. \<not> timeAfter (Timestamp r) (timeAdd now (negDuration (windowSize h)))) (readings h)"
proof -
  define P where "P = (\<lambda>r::Reading. \<not> timeAfter (Timestamp r) (timeAdd now (negDuration (windowSize h))))"
  define k where "k = length (takeWhile P (readings h))"
  have le: "k \<le> length (readings h)"
    unfolding k_def by (rule length_takeWhile_le)
  have idx: "pruneStartIdx (timeAdd now (negDuration (windowSize h))) (readings h) 0 = k"
    by (simp add: pruneStartIdx_takeWhile k_def P_def)
  have "readings (prune h now) = drop k (readings h)"
    using le by (cases "k = 0") (simp_all add: prune_def Let_def idx)
  also have "\<dots> = dropWhile P (readings h)"
    by (simp add: dropWhile_eq_drop k_def)
  finally show ?thesis by (simp add: P_def)
qed

lemma prune_fields [simp]:
  "maxSize (prune h now) = maxSize h" "windowSize (prune h now) = windowSize h"
  by (simp_all add: prune_def Let_def)

lemma Add_fields [simp]:
  "maxSize (Add h r) = maxSize h" "windowSize (Add h r) = windowSize h"
  by (simp_all add: Add_def Let_def)

lemma foldl_Add_fields [simp]:
  "maxSize (foldl Add h rs) = maxSize h" "windowSize (foldl Add h rs) = windowSize h"
  by (induction rs arbitrary: h) simp_all

lemma Add_readings:
  "readings (Add h r) =
     (let rs = readings (prune h (Timestamp r)) @ [r]
      in if int (length rs) > maxSize h then drop 1 rs else rs)"
  by (simp add: Add_def Let_def)

lemma length_prune_le: "length (readings (prune h now)) \<le> length (readings h)"
  by (simp add: prune_readings length_dropWhile_le)

lemma Add_keeps_cap:
  assumes "int (length (readings h)) \<le> maxSize h"
  shows "int (length (readings (Add h r))) \<le> maxSize h"
  using assms length_prune_le [of h "Timestamp r"]
  by (auto simp: Add_readings Let_def)

lemma foldl_Add_keeps_cap:
  "int (length (readings h)) \<le> maxSize h \<Longrightarrow> int (length (readings (foldl Add h rs))) \<le> maxSize h"
proof (induction rs arbitrary: h)
  case Nil
  then show ?case by simp
next
  case (Cons r rs)
  from Cons.prems have "int (length (readings (Add h r))) \<le> maxSize (Add h r)"
    by (simp add: Add_keeps_cap)
  from Cons.IH [OF this] show ?case by simp
qed

text \<open>
  Claim C1.  A history made by \<^verbatim>\<open>NewHistory\<close> with capacity \<open>cap\<close> never holds more than
  \<open>cap\<close> readings: after the calls \<^verbatim>\<open>Add\<close> for any sequence \<open>rs\<close> of readings, \<^verbatim>\<open>Len()\<close> is at
  most \<open>cap\<close>.  The sequence is arbitrary, so the bound holds for the sequences with
  strictly increasing timestamps and, every prefix of a sequence being a sequence, after
  each single call.
\<close>

theorem history_len_le_capacity:
  "NewHistory cap w = Inr h \<Longrightarrow> int (Len (foldl Add h rs)) \<le> cap"
proof -
  assume "NewHistory cap w = Inr h"
  then have h: "readings h = []" "maxSize h = cap" "0 \<le> cap"
    by (auto simp: NewHistory_def split: if_splits)
  with foldl_Add_keeps_cap [of h rs] show ?thesis by (simp add: Len_def)
qed

theorem history_len_le_capacity_witness:
  "NewHistory 3 300000000000 = Inr \<lparr>readings = [], maxSize = 3, windowSize = 300000000000\<rparr>
   \<and> int (Len (foldl Add \<lparr>readings = [], maxSize = 3, windowSize = 300000000000\<rparr>
        [mkReading 0 0, mkReading 10 1000000000, mkReading 20 2000000000,
         mkReading 30 3000000000, mkReading 40 4000000000])) \<le> 3"
  using history_len_le_capacity [of 3 300000000000
      "\<lparr>readings = [], maxSize = 3, windowSize = 300000000000\<rparr>"
      "[mkReading 0 0, mkReading 10 1000000000, mkReading 20 2000000000,
        mkReading 30 3000000000, mkReading 40 4000000000]"]
  by (simp add: NewHistory_def)

text \<open>
  Claim C10.  In a history of capacity at least 1, in whatever state, the reading just
  added is the latest one: after \<^verbatim>\<open>Add(r)\<close> the buffer is not empty and \<^verbatim>\<open>Latest()\<close> returns
  \<open>r\<close>, whatever the timestamp of \<open>r\<close>.
\<close>

theorem add_then_latest:
  "1 \<le> maxSize h \<Longrightarrow> readings (Add h r) \<noteq> [] \<and> Latest (Add h r) = Some r"
  by (auto simp: Add_readings Let_def Latest_def nth_append)

theorem add_then_latest_witness:
  "1 \<le> maxSize \<lparr>readings = [mkReading 10 5000000000], maxSize = 1, windowSize = 2000000000\<rparr>
   \<and> readings (Add \<lparr>readings = [mkReading 10 5000000000], maxSize = 1, windowSize = 2000000000\<rparr>
        (mkReading 20 0)) \<noteq> []
   \<and> Latest (Add \<lparr>readings = [mkReading 10 5000000000], maxSize = 1, windowSize = 2000000000\<rparr>
        (mkReading 20 0)) = Some (mkReading 20 0)"
  using add_then_latest [of "\<lparr>readings = [mkReading 10 5000000000], maxSize = 1, windowSize = 2000000000\<rparr>"
      "mkReading 20 0"]
  by simp

lemma suffix_Add: "suffix (readings (Add h r)) (readings h @ [r])"
proof -
  let ?ps = "readings (prune h (Timestamp r)) @ [r]"
  have "suffix (readings (prune h (Timestamp r))) (readings h)"
    by (simp add: prune_readings suffix_dropWhile)
  then have 1: "suffix ?ps (readings h @ [r])"
    by simp
  have "readings (Add h r) = drop 1 ?ps \<or> readings (Add h r) = ?ps"
    by (simp add: Add_readings Let_def)
  then have "suffix (readings (Add h r)) ?ps"
    by (metis suffix_drop suffix_order.refl)
  then show ?thesis using 1 by (rule suffix_order.trans)
qed

text \<open>Started empty, the buffer is always a suffix of the sequence of readings added.\<close>

lemma suffix_foldl_Add:
  "readings h = [] \<Longrightarrow> suffix (readings (foldl Add h rs)) rs"
proof (induction rs rule: rev_induct)
  case Nil
  then show ?case by simp
next
  case (snoc r rs)
  then have "suffix (readings (foldl Add h rs) @ [r]) (rs @ [r])" by simp
  with suffix_Add [of "foldl Add h rs" r]
  have "suffix (readings (Add (foldl Add h rs) r)) (rs @ [r])"
    by (rule suffix_order.trans)
  then show ?case by (simp only: foldl_append foldl.simps)
qed

lemma dropWhile_increasing:
  assumes "sorted_wrt (<) (map Timestamp xs)" "e \<in> set (dropWhile (\<lambda>r. \<not> c < Timestamp r) xs)"
  shows "c < Timestamp e"
  using assms by (induction xs) (auto split: if_splits)

lemma Add_window:
  assumes "sorted_wrt (<) (map Timestamp (readings h))" "0 \<le> windowSize h"
    "e \<in> set (readings (Add h r))"
  shows "Timestamp r - Timestamp e \<le> windowSize h"
proof -
  have neg: "negDuration (windowSize h) = - windowSize h"
    using assms(2) by (simp add: negDuration_def)
  from assms(3) have "e = r \<or> e \<in> set (readings (prune h (Timestamp r)))"
    by (auto simp: Add_readings Let_def split: if_splits dest: in_set_dropD)
  then show ?thesis
  proof
    assume "e = r" with assms(2) show ?thesis by simp
  next
    assume "e \<in> set (readings (prune h (Timestamp r)))"
    then have "Timestamp r - windowSize h < Timestamp e"
      using dropWhile_increasing [OF assms(1), of e "Timestamp r - windowSize h"]
      by (simp add: prune_readings timeAfter_def timeAdd_def neg)
    then show ?thesis by simp
  qed
qed

lemma suffix_increasing:
  "suffix ys xs \<Longrightarrow> sorted_wrt (<) (map Timestamp xs) \<Longrightarrow> sorted_wrt (<) (map Timestamp ys)"
  by (auto simp: suffix_def sorted_wrt_append)

text \<open>
  Claim C2, as stated, fails for a history with a negative window (the flag
  \<^verbatim>\<open>-history\<close> accepts one): every older reading is pruned, and the reading just added
  stays, at distance 0 from itself, which is more than the window.
\<close>

theorem history_window_counterexample:
  "NewHistory 100 (- 1000000000) = Inr \<lparr>readings = [], maxSize = 100, windowSize = - 1000000000\<rparr>
   \<and> readings (foldl Add \<lparr>readings = [], maxSize = 100, windowSize = - 1000000000\<rparr> [mkReading 10 0])
       = [mkReading 10 0]
   \<and> \<not> (Timestamp (last [mkReading 10 0]) - Timestamp (mkReading 10 0)
          \<le> windowSize \<lparr>readings = [], maxSize = 100, windowSize = - 1000000000\<rparr>)"
  by (simp add: NewHistory_def Add_def prune_def Let_def mkReading_def timeAdd_def timeAfter_def
      negDuration_def)

text \<open>
  Claim C2, amended.  For a history made by \<^verbatim>\<open>NewHistory\<close> with a window \<open>w \<ge> 0\<close> and a
  non-empty sequence \<open>rs\<close> of readings with strictly increasing timestamps, every reading
  \<open>e\<close> in the buffer after the calls \<^verbatim>\<open>Add\<close> is within the window of the last reading added:
  \<open>Timestamp (last rs) - Timestamp e \<le> w\<close>.  And with a window of 2 s and room for one
  reading or more, readings of 10 W, 20 W and 30 W at \<open>t\<close>, \<open>t + 1 s\<close> and \<open>t + 4 s\<close> leave the
  30 W reading alone.
\<close>

theorem history_window_nonneg_window:
  "(NewHistory cap w = Inr h \<and> 0 \<le> w \<and> sorted_wrt (<) (map Timestamp rs) \<and> rs \<noteq> [] \<and>
      e \<in> set (readings (foldl Add h rs))
     \<longrightarrow> Timestamp (last rs) - Timestamp e \<le> w)
   \<and> (NewHistory cap' 2000000000 = Inr h' \<and> 1 \<le> cap'
     \<longrightarrow> readings (foldl Add h'
            [mkReading 10 t, mkReading 20 (t + 1000000000), mkReading 30 (t + 4000000000)])
          = [mkReading 30 (t + 4000000000)])"
proof (intro conjI impI; elim conjE)
  assume new: "NewHistory cap w = Inr h" and w: "0 \<le> w"
    and inc: "sorted_wrt (<) (map Timestamp rs)" and ne: "rs \<noteq> []"
    and e: "e \<in> set (readings (foldl Add h rs))"
  from new have h0: "readings h = []" "windowSize h = w"
    by (auto simp: NewHistory_def split: if_splits)
  from ne obtain rs' r where rs: "rs = rs' @ [r]"
    by (cases rs rule: rev_cases) auto
  let ?h = "foldl Add h rs'"
  have "suffix (readings ?h) rs'"
    using h0(1) by (rule suffix_foldl_Add)
  moreover from inc have "sorted_wrt (<) (map Timestamp rs')"
    by (simp add: rs sorted_wrt_append)
  ultimately have "sorted_wrt (<) (map Timestamp (readings ?h))"
    by (rule suffix_increasing)
  moreover have "0 \<le> windowSize ?h" using w h0(2) by simp
  moreover have "e \<in> set (readings (Add ?h r))" using e by (simp add: rs)
  ultimately have "Timestamp r - Timestamp e \<le> windowSize ?h"
    by (rule Add_window)
  then show "Timestamp (last rs) - Timestamp e \<le> w"
    by (simp add: rs h0(2))
next
  assume "NewHistory cap' 2000000000 = Inr h'" and "1 \<le> cap'"
  then have h': "h' = \<lparr>readings = [], maxSize = cap', windowSize = 2000000000\<rparr>"
    and cap': "1 \<le> cap'"
    by (auto simp: NewHistory_def split: if_splits)
  have 1: "Add h' (mkReading 10 t) = h'\<lparr>readings := [mkReading 10 t]\<rparr>"
    using cap' by (simp add: h' Add_def prune_def Let_def)
  have 2: "readings (Add (h'\<lparr>readings := [mkReading 10 t]\<rparr>) (mkReading 20 (t + 1000000000)))
      = (if cap' = 1 then [mkReading 20 (t + 1000000000)]
         else [mkReading 10 t, mkReading 20 (t + 1000000000)])"
    using cap'
    by (simp add: h' Add_readings prune_readings Let_def mkReading_def timeAdd_def timeAfter_def
        negDuration_def)
  have 3: "readings (Add hh (mkReading 30 (t + 4000000000))) = [mkReading 30 (t + 4000000000)]"
    if "maxSize hh = cap'" "windowSize hh = 2000000000"
      "readings hh = [mkReading 20 (t + 1000000000)]
        \<or> readings hh = [mkReading 10 t, mkReading 20 (t + 1000000000)]" for hh
    using that cap'
    by (auto simp: Add_readings prune_readings Let_def mkReading_def timeAdd_def timeAfter_def
        negDuration_def)
  have "readings (Add (Add (Add h' (mkReading 10 t)) (mkReading 20 (t + 1000000000)))
       (mkReading 30 (t + 4000000000))) = [mkReading 30 (t + 4000000000)]"
    by (rule 3) (simp_all add: 1 2, simp_all add: h')
  then show "readings (foldl Add h'
       [mkReading 10 t, mkReading 20 (t + 1000000000), mkReading 30 (t + 4000000000)])
     = [mkReading 30 (t + 4000000000)]"
    by simp
qed

theorem history_window_nonneg_window_witness:
  "NewHistory 100 2000000000 = Inr \<lparr>readings = [], maxSize = 100, windowSize = 2000000000\<rparr>
   \<and> (0::int) \<le> 2000000000
   \<and> sorted_wrt (<) (map Timestamp [mkReading 10 0, mkReading 20 1000000000, mkReading 30 2500000000])
   \<and> mkReading 20 1000000000 \<in> set (readings (foldl Add
        \<lparr>readings = [], maxSize = 100, windowSize = 2000000000\<rparr>
        [mkReading 10 0, mkReading 20 1000000000, mkReading 30 2500000000]))
   \<and> Timestamp (last [mkReading 10 0, mkReading 20 1000000000, mkReading 30 2500000000])
       - Timestamp (mkReading 20 1000000000) \<le> 2000000000
   \<and> readings (foldl Add \<lparr>readings = [], maxSize = 100, windowSize = 2000000000\<rparr>
        [mkReading 10 0, mkReading 20 1000000000, mkReading 30 4000000000])
       = [mkReading 30 4000000000]"
  using history_window_nonneg_window [of 100 2000000000
      "\<lparr>readings = [], maxSize = 100, windowSize = 2000000000\<rparr>"
      "[mkReading 10 0, mkReading 20 1000000000, mkReading 30 2500000000]"
      "mkReading 20 1000000000" 100
      "\<lparr>readings = [], maxSize = 100, windowSize = 2000000000\<rparr>" 0]
  by (simp add: NewHistory_def Add_def prune_def Let_def mkReading_def timeAdd_def timeAfter_def
      negDuration_def)

section \<open>The trend is the least-squares slope\<close>

lemma trendSums_eq:
  "trendSums rs i (a, b, c, d) =
     (a + (\<Sum>k<length rs. real (i + k)),
      b + (\<Sum>k<length rs. Watts (rs ! k)),
      c + (\<Sum>k<length rs. real (i + k) * Watts (rs ! k)),
      d + (\<Sum>k<length rs. real (i + k) * real (i + k)))"
proof (induction rs arbitrary: i a b c d)
  case Nil
  show ?case by simp
next
  case (Cons r rs)
  show ?case
    by (simp add: Cons.IH Let_def sum.lessThan_Suc_shift add_ac del: sum.lessThan_Suc)
qed

lemma trendSums_0:
  "trendSums rs 0 (0, 0, 0, 0) =
     ((\<Sum>k<length rs. real k),
      (\<Sum>k<length rs. Watts (rs ! k)),
      (\<Sum>k<length rs. real k * Watts (rs ! k)),
      (\<Sum>k<length rs. real k * real k))"
  by (simp add: trendSums_eq)

lemma sum_index: "(\<Sum>k<n. real k) = real n * (real n - 1) / 2"
  by (induction n) (simp_all add: field_simps)

lemma sum_index_sq: "(\<Sum>k<n. real k * real k) = real n * (real n - 1) * (2 * real n - 1) / 6"
  by (induction n) (simp_all add: field_simps)

lemma index_variance:
  "real n * (\<Sum>k<n. real k * real k) - (\<Sum>k<n. real k) * (\<Sum>k<n. real k)
     = (real n) ^ 2 * ((real n) ^ 2 - 1) / 12"
  by (simp add: sum_index sum_index_sq power2_eq_square field_simps)

lemma index_variance_pos:
  assumes "2 \<le> n"
  shows "0 < real n * (\<Sum>k<n. real k * real k) - (\<Sum>k<n. real k) * (\<Sum>k<n. real k)"
proof -
  from assms have "2 \<le> real n" by simp
  then have "2 * 2 \<le> real n * real n"
    by (intro mult_mono) simp_all
  then have "1 < (real n) ^ 2"
    by (simp add: power2_eq_square)
  moreover have "0 < (real n) ^ 2" using assms by simp
  ultimately show ?thesis by (simp add: index_variance)
qed


lemma residual_sum_zero:
  fixes a b :: real
  assumes "n = length ys" "0 < n"
    and "a = ((\<Sum>k<n. ys ! k) - b * (\<Sum>k<n. real k)) / real n"
  shows "(\<Sum>k<n. ys ! k - (a + b * real k)) = 0"
proof -
  have "(\<Sum>k<n. ys ! k - (a + b * real k)) = (\<Sum>k<n. ys ! k) - (real n * a + b * (\<Sum>k<n. real k))"
    by (simp add: sum_subtractf sum.distrib sum_distrib_left)
  also have "real n * a = (\<Sum>k<n. ys ! k) - b * (\<Sum>k<n. real k)"
    using assms(2,3) by simp
  finally show ?thesis by simp
qed

lemma residual_moment_zero:
  fixes a b :: real
  assumes "0 < n"
    and a: "a = ((\<Sum>k<n. ys ! k) - b * (\<Sum>k<n. real k)) / real n"
    and b: "b * (real n * (\<Sum>k<n. real k * real k) - (\<Sum>k<n. real k) * (\<Sum>k<n. real k))
              = real n * (\<Sum>k<n. real k * ys ! k) - (\<Sum>k<n. real k) * (\<Sum>k<n. ys ! k)"
  shows "(\<Sum>k<n. real k * (ys ! k - (a + b * real k))) = 0"
proof -
  let ?Sx = "\<Sum>k<n. real k" and ?Sy = "\<Sum>k<n. ys ! k"
  let ?Sxy = "\<Sum>k<n. real k * ys ! k" and ?Sxx = "\<Sum>k<n. real k * real k"
  have "(\<Sum>k<n. real k * (ys ! k - (a + b * real k))) = (\<Sum>k<n. real k * ys ! k - (a * real k + b * (real k * real k)))"
    by (rule sum.cong) (simp_all add: algebra_simps)
  also have "\<dots> = ?Sxy - (a * ?Sx + b * ?Sxx)"
    by (simp add: sum_subtractf sum.distrib sum_distrib_left)
  finally have eq: "(\<Sum>k<n. real k * (ys ! k - (a + b * real k))) = ?Sxy - (a * ?Sx + b * ?Sxx)" .
  have na: "real n * a = ?Sy - b * ?Sx" using assms(1) a by simp
  have "real n * (?Sxy - (a * ?Sx + b * ?Sxx)) = real n * ?Sxy - (real n * a) * ?Sx - b * (real n * ?Sxx)"
    by (simp add: algebra_simps)
  also have "\<dots> = real n * ?Sxy - (?Sy - b * ?Sx) * ?Sx - b * (real n * ?Sxx)"
    by (simp only: na)
  also have "\<dots> = (real n * ?Sxy - ?Sx * ?Sy) - b * (real n * ?Sxx - ?Sx * ?Sx)"
    by (simp add: algebra_simps)
  also have "\<dots> = 0" using b by simp
  finally have "real n * (?Sxy - (a * ?Sx + b * ?Sxx)) = 0" .
  with assms(1) have "?Sxy - (a * ?Sx + b * ?Sxx) = 0" by simp
  with eq show ?thesis by simp
qed

lemma squaredError_split:
  fixes a b a' b' :: real
  shows "squaredError ys a' b' =
     squaredError ys a b
     + 2 * (a - a') * (\<Sum>k<length ys. ys ! k - (a + b * real k))
     + 2 * (b - b') * (\<Sum>k<length ys. real k * (ys ! k - (a + b * real k)))
     + (\<Sum>k<length ys. ((a - a') + (b - b') * real k) ^ 2)"
proof -
  have "(ys ! k - (a' + b' * real k)) ^ 2 =
      (ys ! k - (a + b * real k)) ^ 2
      + 2 * (a - a') * (ys ! k - (a + b * real k))
      + 2 * (b - b') * (real k * (ys ! k - (a + b * real k)))
      + ((a - a') + (b - b') * real k) ^ 2" for k
    by (simp add: power2_eq_square algebra_simps)
  then show ?thesis
    by (simp add: squaredError_def sum.distrib sum_distrib_left)
qed

lemma least_squares:
  fixes a b :: real
  assumes "(\<Sum>k<length ys. ys ! k - (a + b * real k)) = 0"
    and "(\<Sum>k<length ys. real k * (ys ! k - (a + b * real k))) = 0"
  shows "squaredError ys a b \<le> squaredError ys a' b'"
proof -
  have "0 \<le> (\<Sum>k<length ys. ((a - a') + (b - b') * real k) ^ 2)"
    by (rule sum_nonneg) simp
  then show ?thesis
    by (simp add: squaredError_split [of ys a' b' a b] assms)
qed


lemma trendSums_watts:
  "trendSums rs 0 (0, 0, 0, 0) =
     ((\<Sum>k<length rs. real k),
      (\<Sum>k<length (map Watts rs). map Watts rs ! k),
      (\<Sum>k<length (map Watts rs). real k * map Watts rs ! k),
      (\<Sum>k<length rs. real k * real k))"
  by (simp add: trendSums_0)

lemma Trend_short: "length (readings h) < 2 \<Longrightarrow> Trend h = 0"
  by (simp add: Trend_def)

lemma Trend_degenerate: "trendDenominator h = 0 \<Longrightarrow> Trend h = 0"
  by (auto simp: Trend_def trendDenominator_def Let_def split: prod.splits)

lemma trendDenominator_pos: "2 \<le> length (readings h) \<Longrightarrow> 0 < trendDenominator h"
  using index_variance_pos [of "length (readings h)"]
  by (auto simp: trendDenominator_def trendSums_0)

lemma Trend_four:
  assumes "map Watts (readings h) = [w0, w1, w2, w3]"
  shows "Trend h = (3 * w3 + w2 - w1 - 3 * w0) / 10"
proof -
  from assms obtain r0 r1 r2 r3 where rs: "readings h = [r0, r1, r2, r3]"
    and w: "Watts r0 = w0" "Watts r1 = w1" "Watts r2 = w2" "Watts r3 = w3"
    by (auto simp: map_eq_Cons_conv)
  show ?thesis
    by (simp add: Trend_def Let_def rs w)
qed


lemma least_squares_unique:
  fixes a b :: real
  assumes "(\<Sum>k<length ys. ys ! k - (a + b * real k)) = 0"
    and "(\<Sum>k<length ys. real k * (ys ! k - (a + b * real k))) = 0"
    and "2 \<le> length ys"
    and "squaredError ys a' b' \<le> squaredError ys a b"
  shows "a' = a \<and> b' = b"
proof -
  let ?d = "\<lambda>k. ((a - a') + (b - b') * real k) ^ 2"
  have "squaredError ys a' b' = squaredError ys a b + (\<Sum>k<length ys. ?d k)"
    by (simp add: squaredError_split [of ys a' b' a b] assms(1,2))
  with assms(4) have "(\<Sum>k<length ys. ?d k) \<le> 0" by simp
  moreover have "0 \<le> (\<Sum>k<length ys. ?d k)" by (rule sum_nonneg) simp
  ultimately have "(\<Sum>k<length ys. ?d k) = 0" by simp
  then have zero: "\<forall>k\<in>{..<length ys}. ?d k = 0"
    by (subst (asm) sum_nonneg_eq_0_iff) simp_all
  from assms(3) have "0 < length ys" "1 < length ys" by auto
  with zero have "?d 0 = 0" "?d 1 = 0" by blast+
  then show ?thesis by simp
qed

lemma Trend_normal_equations:
  assumes "2 \<le> length (readings h)"
  shows "(\<Sum>k<length (map Watts (readings h)).
            map Watts (readings h) ! k - (trendIntercept h + Trend h * real k)) = 0"
    and "(\<Sum>k<length (map Watts (readings h)).
            real k * (map Watts (readings h) ! k - (trendIntercept h + Trend h * real k))) = 0"
proof -
  define ys where "ys = map Watts (readings h)"
  define n where "n = length (readings h)"
  let ?Sx = "\<Sum>k<n. real k" and ?Sy = "\<Sum>k<n. ys ! k"
  let ?Sxy = "\<Sum>k<n. real k * ys ! k" and ?Sxx = "\<Sum>k<n. real k * real k"
  let ?D = "real n * ?Sxx - ?Sx * ?Sx"
  have len: "length ys = n" by (simp add: ys_def n_def)
  have n: "2 \<le> n" "0 < n" using assms by (auto simp: n_def)
  have sums: "trendSums (readings h) 0 (0, 0, 0, 0) = (?Sx, ?Sy, ?Sxy, ?Sxx)"
    using trendSums_watts [of "readings h"] by (simp add: ys_def n_def)
  have D: "0 < ?D" using n(1) by (rule index_variance_pos)
  have slope: "Trend h = (real n * ?Sxy - ?Sx * ?Sy) / ?D"
    using D n(1) by (simp add: Trend_def Let_def sums n_def [symmetric])
  have icpt: "trendIntercept h = (?Sy - Trend h * ?Sx) / real n"
    by (simp add: trendIntercept_def sums n_def [symmetric])
  have b: "Trend h * ?D = real n * ?Sxy - ?Sx * ?Sy"
    using D by (simp add: slope)
  have "(\<Sum>k<length ys. ys ! k - (trendIntercept h + Trend h * real k)) = 0"
    unfolding len using len [symmetric] n(2) icpt by (rule residual_sum_zero)
  then show "(\<Sum>k<length (map Watts (readings h)).
            map Watts (readings h) ! k - (trendIntercept h + Trend h * real k)) = 0"
    by (simp only: ys_def)
  have "(\<Sum>k<length ys. real k * (ys ! k - (trendIntercept h + Trend h * real k))) = 0"
    unfolding len using n(2) icpt b by (rule residual_moment_zero)
  then show "(\<Sum>k<length (map Watts (readings h)).
            real k * (map Watts (readings h) ! k - (trendIntercept h + Trend h * real k))) = 0"
    by (simp only: ys_def)
qed

text \<open>
  Claim C3.  \<^verbatim>\<open>Trend\<close> returns 0 for fewer than two readings, and 0 when its denominator,
  the variance of the indices up to a factor, is 0.  For two readings or more it returns
  the slope of the ordinary-least-squares line of the watts against the positions
  \<open>0, \<dots>, n - 1\<close>: with the intercept \<open>trendIntercept h\<close>, no line \<open>a + b \<sdot> k\<close> has a smaller sum
  of squared residuals, and a line that does as well is this one.  On the watts 10, 20,
  30, 40 the trend is positive, on 40, 30, 20, 10 negative, and on four equal values 0.
  A \<^verbatim>\<open>float64\<close> is a real number here; the three examples of the claim are computed
  without rounding in \<^verbatim>\<open>float64\<close> as well when the values are small integers.
\<close>

theorem trend_least_squares_slope:
  "(length (readings h) < 2 \<longrightarrow> Trend h = 0)
   \<and> (trendDenominator h = 0 \<longrightarrow> Trend h = 0)
   \<and> (2 \<le> length (readings h) \<longrightarrow>
        squaredError (map Watts (readings h)) (trendIntercept h) (Trend h)
          \<le> squaredError (map Watts (readings h)) a b)
   \<and> (2 \<le> length (readings h) \<and>
        squaredError (map Watts (readings h)) a' b'
          \<le> squaredError (map Watts (readings h)) (trendIntercept h) (Trend h)
        \<longrightarrow> b' = Trend h)
   \<and> (map Watts (readings h) = [10, 20, 30, 40] \<longrightarrow> 0 < Trend h)
   \<and> (map Watts (readings h) = [40, 30, 20, 10] \<longrightarrow> Trend h < 0)
   \<and> (map Watts (readings h) = [w, w, w, w] \<longrightarrow> Trend h = 0)"
proof (intro conjI impI)
  show "Trend h = 0" if "length (readings h) < 2"
    using that by (rule Trend_short)
  show "Trend h = 0" if "trendDenominator h = 0"
    using that by (rule Trend_degenerate)
  show "squaredError (map Watts (readings h)) (trendIntercept h) (Trend h)
          \<le> squaredError (map Watts (readings h)) a b" if "2 \<le> length (readings h)"
    using Trend_normal_equations [OF that] by (rule least_squares)
  show "b' = Trend h"
    if "2 \<le> length (readings h) \<and>
        squaredError (map Watts (readings h)) a' b'
          \<le> squaredError (map Watts (readings h)) (trendIntercept h) (Trend h)"
  proof -
    from that have n: "2 \<le> length (readings h)"
      and le: "squaredError (map Watts (readings h)) a' b'
          \<le> squaredError (map Watts (readings h)) (trendIntercept h) (Trend h)"
      by simp_all
    from n have "2 \<le> length (map Watts (readings h))" by simp
    with Trend_normal_equations [OF n] have "a' = trendIntercept h \<and> b' = Trend h"
      using le by (rule least_squares_unique)
    then show ?thesis by simp
  qed
  show "0 < Trend h" if "map Watts (readings h) = [10, 20, 30, 40]"
    using Trend_four [OF that] by simp
  show "Trend h < 0" if "map Watts (readings h) = [40, 30, 20, 10]"
    using Trend_four [OF that] by simp
  show "Trend h = 0" if "map Watts (readings h) = [w, w, w, w]"
    using Trend_four [OF that] by simp
qed

theorem trend_least_squares_slope_witness:
  "length (readings (testHistory [20])) < 2
   \<and> Trend (testHistory [20]) = 0
   \<and> 2 \<le> length (readings (testHistory [10, 20, 30, 40]))
   \<and> map Watts (readings (testHistory [10, 20, 30, 40])) = [10, 20, 30, 40]
   \<and> squaredError [10, 20, 30, 40] (trendIntercept (testHistory [10, 20, 30, 40]))
         (Trend (testHistory [10, 20, 30, 40]))
       \<le> squaredError [10, 20, 30, 40] 0 0
   \<and> 0 < Trend (testHistory [10, 20, 30, 40])
   \<and> map Watts (readings (testHistory [40, 30, 20, 10])) = [40, 30, 20, 10]
   \<and> Trend (testHistory [40, 30, 20, 10]) < 0
   \<and> map Watts (readings (testHistory [20, 20, 20, 20])) = [20, 20, 20, 20]
   \<and> Trend (testHistory [20, 20, 20, 20]) = 0"
proof -
  have one: "readings (testHistory [20]) = [mkReading 20 0]"
    by (simp add: testHistory_def Add_def prune_def Let_def mkReading_def timeAdd_def
        timeAfter_def negDuration_def)
  have four: "readings (testHistory [w0, w1, w2, w3]) =
      [mkReading w0 0, mkReading w1 1000000000, mkReading w2 2000000000, mkReading w3 3000000000]"
    for w0 w1 w2 w3
    by (simp add: testHistory_def Add_def prune_def Let_def mkReading_def timeAdd_def
        timeAfter_def negDuration_def)
  show ?thesis
    using trend_least_squares_slope [of "testHistory [20]" 0 0 0 0 20]
      trend_least_squares_slope [of "testHistory [10, 20, 30, 40]" 0 0 0 0 20]
      trend_least_squares_slope [of "testHistory [40, 30, 20, 10]" 0 0 0 0 20]
      trend_least_squares_slope [of "testHistory [20, 20, 20, 20]" 0 0 0 0 20]
    by (simp add: one four mkReading_def)
qed

section \<open>The sign normalizer\<close>

lemmas num_defs = isDigit_def digitsVal_def digitVal_def

lemmas float_defs = ParseFloat_def parseMantissa_def parseExponent_def num_defs

lemma signed_take_bit_wrap:
  fixes k :: int
  assumes "0 \<le> k" "k < 2 ^ Suc m"
  shows "signed_take_bit m k = (if k < 2 ^ m then k else k - 2 ^ Suc m)"
proof (cases "k < 2 ^ m")
  case True
  then have "(k + 2 ^ m) mod 2 ^ Suc m = k + 2 ^ m"
    using assms(1) by (intro mod_pos_pos_trivial) simp_all
  with True show ?thesis
    by (simp add: signed_take_bit_eq_take_bit_shift take_bit_eq_mod)
next
  case False
  have "k + 2 ^ m = k - 2 ^ m + 2 ^ Suc m"
    by simp
  then have "(k + 2 ^ m) mod 2 ^ Suc m = (k - 2 ^ m + 2 ^ Suc m) mod 2 ^ Suc m"
    by (rule arg_cong)
  also have "\<dots> = (k - 2 ^ m) mod 2 ^ Suc m"
    by (simp only: mod_add_self2)
  also have "\<dots> = k - 2 ^ m"
    using False assms(2) by (intro mod_pos_pos_trivial) simp_all
  finally show ?thesis using False
    by (simp add: signed_take_bit_eq_take_bit_shift take_bit_eq_mod)
qed

lemma uint64_of_nat: "n < 2 ^ 64 \<Longrightarrow> uint (word_of_nat n :: 64 word) = int n"
  by (simp add: unsigned_of_nat take_bit_nat_eq_self)

lemma sint64_of_nat:
  assumes "n < 2 ^ 64"
  shows "sint (word_of_nat n :: 64 word) = (if n < 2 ^ 63 then int n else int n - 2 ^ 64)"
proof -
  have u: "uint (word_of_nat n :: 64 word) = int n" using assms by (rule uint64_of_nat)
  have "signed_take_bit 63 (int n) = (if int n < 2 ^ 63 then int n else int n - 2 ^ Suc 63)"
    using assms by (intro signed_take_bit_wrap) simp_all
  then show ?thesis
    by (simp add: sint_uint u)
qed

lemma word64_gt_MaxInt32: "n < 2 ^ 64 \<Longrightarrow> ((word_of_nat n :: 64 word) > 0x7FFFFFFF) = (2 ^ 31 \<le> n)"
  by (simp add: word_less_nat_alt unsigned_of_nat take_bit_nat_eq_self) arith

lemma word64_le_MaxUint32: "n < 2 ^ 64 \<Longrightarrow> ((word_of_nat n :: 64 word) \<le> 0xFFFFFFFF) = (n < 2 ^ 32)"
  by (simp add: word_le_nat_alt unsigned_of_nat take_bit_nat_eq_self) arith

lemma int32_of_nat:
  assumes "2 ^ 31 \<le> n" "n < 2 ^ 32"
  shows "sint (scast (ucast (word_of_nat n :: 64 word) :: 32 word) :: 64 word) = int n - 2 ^ 32"
proof -
  have n64: "n < 2 ^ 64" using assms(2) by simp
  have "uint (ucast (word_of_nat n :: 64 word) :: 32 word) = take_bit 32 (int n)"
    by (simp add: unsigned_ucast_eq uint64_of_nat [OF n64])
  also have "\<dots> = int n"
    using assms(2) by (simp add: take_bit_int_eq_self)
  finally have u: "uint (ucast (word_of_nat n :: 64 word) :: 32 word) = int n" .
  have "signed_take_bit 31 (int n) = (if int n < 2 ^ 31 then int n else int n - 2 ^ Suc 31)"
    using assms by (intro signed_take_bit_wrap) simp_all
  then have "sint (ucast (word_of_nat n :: 64 word) :: 32 word) = int n - 2 ^ 32"
    using assms(1) by (simp add: sint_uint u)
  moreover have "sint (scast (ucast (word_of_nat n :: 64 word) :: 32 word) :: 64 word)
      = sint (ucast (word_of_nat n :: 64 word) :: 32 word)"
    by (rule sint_up_scast) (simp add: is_up_def source_size target_size)
  ultimately show ?thesis by simp
qed

text \<open>
  Claim C4, as stated, fails on a string of digits whose value does not fit in 64 bits:
  \<open>2\<^sup>6\<^sup>4\<close> in decimal is numeric, and \<^verbatim>\<open>ParseUint\<close> reports a range error, so the
  normalizer reports the input as not parseable.
\<close>

theorem parseIoregSigned_counterexample:
  "''18446744073709551616'' \<noteq> [] \<and> list_all isDigit ''18446744073709551616''
   \<and> parseIoregSigned ''18446744073709551616'' = None"
  by (simp add: parseIoregSigned_def ParseUint64_def num_defs)

text \<open>
  Claim C4, amended.  With \<open>n\<close> the value of the digits of \<open>s\<close>: \<^verbatim>\<open>parseIoregSigned\<close> fails
  exactly when \<open>s\<close> is empty, has a character that is not a decimal digit, or \<open>n\<close> is
  \<open>2\<^sup>6\<^sup>4\<close> or more.  Otherwise its result, read as an \<^verbatim>\<open>int64\<close>, is \<open>n - 2\<^sup>3\<^sup>2\<close> for
  \<open>2\<^sup>3\<^sup>1 \<le> n < 2\<^sup>3\<^sup>2\<close> (the low 32 bits read as two's complement), \<open>n\<close> itself for every
  other \<open>n < 2\<^sup>6\<^sup>3\<close>, and \<open>n - 2\<^sup>6\<^sup>4\<close> from \<open>2\<^sup>6\<^sup>3\<close> on (the same 64 bits, read as signed).
  The string \<^verbatim>\<open>4294967176\<close> decodes to \<open>-120\<close> and \<^verbatim>\<open>1000\<close> to \<open>1000\<close>.
\<close>

theorem parseIoregSigned_decodes:
  "(parseIoregSigned s = None \<longleftrightarrow> s = [] \<or> \<not> list_all isDigit s \<or> 2 ^ 64 \<le> digitsVal s)
   \<and> (parseIoregSigned s = Some v \<longrightarrow>
        sint v = (if 2 ^ 31 \<le> digitsVal s \<and> digitsVal s < 2 ^ 32 then int (digitsVal s) - 2 ^ 32
                  else if digitsVal s < 2 ^ 63 then int (digitsVal s)
                  else int (digitsVal s) - 2 ^ 64))
   \<and> map_option sint (parseIoregSigned ''4294967176'') = Some (- 120)
   \<and> map_option sint (parseIoregSigned ''1000'') = Some 1000"
proof (intro conjI impI)
  show "parseIoregSigned s = None \<longleftrightarrow> s = [] \<or> \<not> list_all isDigit s \<or> 2 ^ 64 \<le> digitsVal s"
    by (auto simp: parseIoregSigned_def ParseUint64_def)
  show "sint v = (if 2 ^ 31 \<le> digitsVal s \<and> digitsVal s < 2 ^ 32 then int (digitsVal s) - 2 ^ 32
                  else if digitsVal s < 2 ^ 63 then int (digitsVal s)
                  else int (digitsVal s) - 2 ^ 64)"
    if "parseIoregSigned s = Some v"
  proof -
    define n where "n = digitsVal s"
    from that have n: "n < 2 ^ 64"
      and v: "v = (if (word_of_nat n :: 64 word) > 0x7FFFFFFF \<and> (word_of_nat n :: 64 word) \<le> 0xFFFFFFFF
                   then scast (ucast (word_of_nat n :: 64 word) :: 32 word)
                   else word_of_nat n)"
      by (auto simp: parseIoregSigned_def ParseUint64_def n_def split: if_splits)
    show ?thesis
    proof (cases "2 ^ 31 \<le> n \<and> n < 2 ^ 32")
      case True
      then show ?thesis
        using int32_of_nat [of n] by (simp add: v word64_gt_MaxInt32 [OF n] word64_le_MaxUint32 [OF n] n_def [symmetric])
    next
      case False
      then show ?thesis
        using sint64_of_nat [OF n] by (auto simp add: v word64_gt_MaxInt32 [OF n] word64_le_MaxUint32 [OF n] n_def [symmetric])
    qed
  qed
  show "map_option sint (parseIoregSigned ''4294967176'') = Some (- 120)"
    by (simp add: parseIoregSigned_def ParseUint64_def num_defs)
  show "map_option sint (parseIoregSigned ''1000'') = Some 1000"
    by (simp add: parseIoregSigned_def ParseUint64_def num_defs)
qed

theorem parseIoregSigned_decodes_witness:
  "parseIoregSigned ''4294967176'' = Some (- 120)
   \<and> sint (- 120 :: 64 word) = int (digitsVal ''4294967176'') - 2 ^ 32
   \<and> parseIoregSigned ''12a'' = None
   \<and> map_option sint (parseIoregSigned ''18446744073709551615'') = Some (- 1)"
  using parseIoregSigned_decodes [of "''4294967176''" "- 120"]
    parseIoregSigned_decodes [of "''12a''"]
  by (simp add: parseIoregSigned_def ParseUint64_def num_defs)

section \<open>The powermetrics report\<close>

lemmas re_defs = combinedPowerRe_def packagePowerRe_def cpuPowerRe_def gpuPowerRe_def
  anePowerRe_def matchLabelPower_def matchMilliwatts_def isReSpace_def isNumChar_def

text \<open>
  Claim C5.  \<^verbatim>\<open>parsePowermetrics\<close> returns the combined total when the report has one that
  parses, whatever else the report holds; failing that, the package total; failing both,
  the sum of the CPU, GPU and ANE powers, an absent one counting as zero; and 0 when no
  expression matches.  Milliwatts become watts.  The report
  \<^verbatim>\<open>Combined Power (CPU + GPU + ANE): 5432 mW\<close> gives 5.432, the three lines
  \<^verbatim>\<open>CPU Power: 3000 mW\<close>, \<^verbatim>\<open>GPU Power: 2000 mW\<close>, \<^verbatim>\<open>ANE Power: 500 mW\<close> give 5.5, and a
  report with no power field gives 0.  The reports of the repository's test are here as
  well: the combined total under a header line gives 5.432, \<^verbatim>\<open>CPU Power: 1234 mW\<close> with
  \<^verbatim>\<open>Package Power: 8500 mW\<close> gives the package total 8.5, the CPU power alone gives 4.2.
  A report with a package and a combined total gives the combined one; a combined total
  that does not parse leaves the package total; and a \<^verbatim>\<open>Combined Power\<close> with no colon on
  its own line does not take the value of the next line.
\<close>

theorem parsePowermetrics_prefers_total:
  "(combinedPowerRe out = Some cap \<and> ParseFloat cap = Some mw \<longrightarrow> parsePowermetrics out = mw / 1000)
   \<and> (submatchWatts combinedPowerRe out = None \<and> packagePowerRe out = Some cap \<and> ParseFloat cap = Some mw
        \<longrightarrow> parsePowermetrics out = mw / 1000)
   \<and> (submatchWatts combinedPowerRe out = None \<and> submatchWatts packagePowerRe out = None
        \<longrightarrow> parsePowermetrics out =
              wattsOrZero (submatchWatts cpuPowerRe out) + wattsOrZero (submatchWatts gpuPowerRe out)
                + wattsOrZero (submatchWatts anePowerRe out))
   \<and> (combinedPowerRe out = None \<and> packagePowerRe out = None \<and> cpuPowerRe out = None \<and>
        gpuPowerRe out = None \<and> anePowerRe out = None
        \<longrightarrow> parsePowermetrics out = 0)
   \<and> parsePowermetrics ''Combined Power (CPU + GPU + ANE): 5432 mW'' = 5.432
   \<and> parsePowermetrics (''CPU Power: 3000 mW'' @ [CHR 0x0A] @ ''GPU Power: 2000 mW'' @ [CHR 0x0A]
        @ ''ANE Power: 500 mW'' @ [CHR 0x0A]) = 5.5
   \<and> parsePowermetrics ''Machine model: Mac14,2'' = 0
   \<and> parsePowermetrics (''*** Sampled system activity (100.00ms elapsed) ***'' @ [CHR 0x0A]
        @ ''Combined Power (CPU + GPU + ANE): 5432 mW'') = 5.432
   \<and> parsePowermetrics (''CPU Power: 1234 mW'' @ [CHR 0x0A] @ ''Package Power: 8500 mW'') = 8.5
   \<and> parsePowermetrics (''CPU Power: 3000 mW'' @ [CHR 0x0A] @ ''GPU Power: 2000 mW'' @ [CHR 0x0A]
        @ ''ANE Power: 500 mW'') = 5.5
   \<and> parsePowermetrics ''CPU Power: 4200 mW'' = 4.2
   \<and> parsePowermetrics ''Some other output without power info'' = 0
   \<and> parsePowermetrics (''Package Power: 8500 mW'' @ [CHR 0x0A]
        @ ''Combined Power (CPU + GPU + ANE): 5432 mW'') = 5.432
   \<and> parsePowermetrics (''Combined Power: 1.2.3 mW'' @ [CHR 0x0A] @ ''Package Power: 8500 mW'') = 8.5
   \<and> parsePowermetrics (''Combined Power'' @ [CHR 0x0A] @ ''CPU Power: 3000 mW'') = 3"
proof (intro conjI impI; (elim conjE)?)
  show "parsePowermetrics out = mw / 1000"
    if "combinedPowerRe out = Some cap" "ParseFloat cap = Some mw"
    using that by (simp add: parsePowermetrics_def submatchWatts_def)
  show "parsePowermetrics out = mw / 1000"
    if "submatchWatts combinedPowerRe out = None" "packagePowerRe out = Some cap" "ParseFloat cap = Some mw"
    using that by (simp add: parsePowermetrics_def submatchWatts_def [of packagePowerRe])
  show "parsePowermetrics out =
      wattsOrZero (submatchWatts cpuPowerRe out) + wattsOrZero (submatchWatts gpuPowerRe out)
        + wattsOrZero (submatchWatts anePowerRe out)"
    if "submatchWatts combinedPowerRe out = None" "submatchWatts packagePowerRe out = None"
    using that by (simp add: parsePowermetrics_def wattsOrZero_def Let_def split: option.splits)
  show "parsePowermetrics out = 0"
    if "combinedPowerRe out = None" "packagePowerRe out = None" "cpuPowerRe out = None"
      "gpuPowerRe out = None" "anePowerRe out = None"
    using that by (simp add: parsePowermetrics_def submatchWatts_def)
  show "parsePowermetrics ''Combined Power (CPU + GPU + ANE): 5432 mW'' = 5.432"
    by (simp add: parsePowermetrics_def submatchWatts_def re_defs float_defs)
  show "parsePowermetrics (''CPU Power: 3000 mW'' @ [CHR 0x0A] @ ''GPU Power: 2000 mW'' @ [CHR 0x0A]
        @ ''ANE Power: 500 mW'' @ [CHR 0x0A]) = 5.5"
    by (simp add: parsePowermetrics_def submatchWatts_def re_defs float_defs)
  show "parsePowermetrics ''Machine model: Mac14,2'' = 0"
    by (simp add: parsePowermetrics_def submatchWatts_def re_defs float_defs)
  show "parsePowermetrics (''*** Sampled system activity (100.00ms elapsed) ***'' @ [CHR 0x0A]
        @ ''Combined Power (CPU + GPU + ANE): 5432 mW'') = 5.432"
    by (simp add: parsePowermetrics_def submatchWatts_def re_defs float_defs)
  show "parsePowermetrics (''CPU Power: 1234 mW'' @ [CHR 0x0A] @ ''Package Power: 8500 mW'') = 8.5"
    by (simp add: parsePowermetrics_def submatchWatts_def re_defs float_defs)
  show "parsePowermetrics (''CPU Power: 3000 mW'' @ [CHR 0x0A] @ ''GPU Power: 2000 mW'' @ [CHR 0x0A]
        @ ''ANE Power: 500 mW'') = 5.5"
    by (simp add: parsePowermetrics_def submatchWatts_def re_defs float_defs)
  show "parsePowermetrics ''CPU Power: 4200 mW'' = 4.2"
    by (simp add: parsePowermetrics_def submatchWatts_def re_defs float_defs)
  show "parsePowermetrics ''Some other output without power info'' = 0"
    by (simp add: parsePowermetrics_def submatchWatts_def re_defs float_defs)
  show "parsePowermetrics (''Package Power: 8500 mW'' @ [CHR 0x0A]
        @ ''Combined Power (CPU + GPU + ANE): 5432 mW'') = 5.432"
    by (simp add: parsePowermetrics_def submatchWatts_def re_defs float_defs)
  show "parsePowermetrics (''Combined Power: 1.2.3 mW'' @ [CHR 0x0A] @ ''Package Power: 8500 mW'') = 8.5"
    by (simp add: parsePowermetrics_def submatchWatts_def re_defs float_defs)
  show "parsePowermetrics (''Combined Power'' @ [CHR 0x0A] @ ''CPU Power: 3000 mW'') = 3"
    by (simp add: parsePowermetrics_def submatchWatts_def re_defs float_defs)
qed

text \<open>
  One report for each clause: the combined total wins over the CPU power, the package
  total wins over the CPU power, the CPU and GPU powers add up with the absent ANE power
  as zero, and no power field gives 0.
\<close>

lemma reportCombined_matches:
  "combinedPowerRe reportCombined = Some ''5432''"
  by (simp add: reportCombined_def re_defs num_defs)

lemma reportPackage_matches:
  "combinedPowerRe reportPackage = None"
  "packagePowerRe reportPackage = Some ''8500''"
  by (simp_all add: reportPackage_def re_defs num_defs)

lemma reportCpuGpu_matches:
  "combinedPowerRe reportCpuGpu = None"
  "packagePowerRe reportCpuGpu = None"
  "cpuPowerRe reportCpuGpu = Some ''3000''"
  "gpuPowerRe reportCpuGpu = Some ''2000''"
  "anePowerRe reportCpuGpu = None"
  by (simp_all add: reportCpuGpu_def re_defs num_defs)

lemma reportNoPower_matches:
  "combinedPowerRe reportNoPower = None"
  "packagePowerRe reportNoPower = None"
  "cpuPowerRe reportNoPower = None"
  "gpuPowerRe reportNoPower = None"
  "anePowerRe reportNoPower = None"
  by (simp_all add: reportNoPower_def re_defs num_defs)

lemma ParseFloat_examples:
  "ParseFloat ''5432'' = Some 5432" "ParseFloat ''8500'' = Some 8500"
  "ParseFloat ''3000'' = Some 3000" "ParseFloat ''2000'' = Some 2000"
  by (simp_all add: float_defs)

theorem parsePowermetrics_prefers_total_witness:
  "combinedPowerRe reportCombined = Some ''5432''
   \<and> ParseFloat ''5432'' = Some 5432
   \<and> parsePowermetrics reportCombined = 5432 / 1000
   \<and> submatchWatts combinedPowerRe reportPackage = None
   \<and> packagePowerRe reportPackage = Some ''8500''
   \<and> ParseFloat ''8500'' = Some 8500
   \<and> parsePowermetrics reportPackage = 8500 / 1000
   \<and> submatchWatts combinedPowerRe reportCpuGpu = None
   \<and> submatchWatts packagePowerRe reportCpuGpu = None
   \<and> submatchWatts cpuPowerRe reportCpuGpu = Some 3
   \<and> submatchWatts gpuPowerRe reportCpuGpu = Some 2
   \<and> submatchWatts anePowerRe reportCpuGpu = None
   \<and> parsePowermetrics reportCpuGpu = 5
   \<and> combinedPowerRe reportNoPower = None
   \<and> packagePowerRe reportNoPower = None
   \<and> cpuPowerRe reportNoPower = None
   \<and> gpuPowerRe reportNoPower = None
   \<and> anePowerRe reportNoPower = None
   \<and> parsePowermetrics reportNoPower = 0"
  using parsePowermetrics_prefers_total [of reportCombined "''5432''" 5432]
    parsePowermetrics_prefers_total [of reportPackage "''8500''" 8500]
    parsePowermetrics_prefers_total [of reportCpuGpu "''0''" 0]
    parsePowermetrics_prefers_total [of reportNoPower "''0''" 0]
  by (simp add: submatchWatts_def wattsOrZero_def reportCombined_matches reportPackage_matches
      reportCpuGpu_matches reportNoPower_matches ParseFloat_examples)

section \<open>The Windows monitor: wattage and battery status\<close>

lemmas win_defs = WindowsMonitor_Read_def parseBatteryInfo_def parseBatteryInfoLine_def
  getEstimatedWatts_def TrimSpace_def isSpace_def SplitN2_def matchKeyDigits_def Atoi_def

text \<open>
  Claim C6 says that a positive power-meter reading is the wattage of the reading.  The
  code parses it (5000 mW gives 5 W in \<^verbatim>\<open>parseBatteryInfo\<close>) and then \<^verbatim>\<open>Read\<close> overwrites
  it with the result of \<^verbatim>\<open>getEstimatedWatts\<close> whenever that command ran: with 0 when the
  second report has no discharge rate, with the discharge rate when it has one.  The
  power-meter reading survives only when the second command fails.
\<close>

theorem windows_power_meter_overwritten:
  "Watts (parseBatteryInfo ''CurrentReading=5000''
      \<lparr>Watts = 0, Timestamp = 0, IsOnBattery = False, BatteryPercent = - 1,
       IsCharging = False, Source = ''windows-wmi''\<rparr>) = 5
   \<and> Watts (WindowsMonitor_Read 0 (Inr ''CurrentReading=5000'') (Inr [])) = 0
   \<and> Watts (WindowsMonitor_Read 0 (Inr ''CurrentReading=5000'') (Inr ''DischargeRate=3000'')) = 3
   \<and> Watts (WindowsMonitor_Read 0 (Inr ''CurrentReading=5000'') (Inl ExecError)) = 5"
  by (simp add: win_defs float_defs)

text \<open>
  Claim C8, as stated, fails at the status code 6: above the code 2, not the discharging
  code, and the reading is neither on battery nor charging.
\<close>

theorem batteryStatus_counterexample:
  "Atoi ''6'' = Inr 6
   \<and> \<not> IsCharging (WindowsMonitor_Read 0 (Inr ''BatteryStatus=6'') (Inr []))
   \<and> \<not> IsOnBattery (WindowsMonitor_Read 0 (Inr ''BatteryStatus=6'') (Inr []))"
  by (simp add: win_defs float_defs)

text \<open>
  Claim C8, amended.  For a line of the report whose key is \<^verbatim>\<open>BatteryStatus\<close> and whose
  value parses to the number \<open>status\<close>: \<^verbatim>\<open>IsOnBattery\<close> is true exactly when \<open>status = 1\<close>,
  and \<^verbatim>\<open>IsCharging\<close> is true exactly when \<open>3 \<le> status \<le> 5\<close>; so the code 2 gives on AC and
  not charging, and so does every code above 5 or below 1.
\<close>

theorem batteryStatus_flags:
  "SplitN2 (TrimSpace line) (CHR ''='') = [k, v] \<and> TrimSpace k = ''BatteryStatus''
     \<and> Atoi (TrimSpace v) = Inr status
   \<longrightarrow> IsOnBattery (parseBatteryInfoLine line r) = (status = 1)
      \<and> IsCharging (parseBatteryInfoLine line r) = (3 \<le> status \<and> status \<le> 5)
      \<and> (status = 2 \<longrightarrow> \<not> IsOnBattery (parseBatteryInfoLine line r)
                         \<and> \<not> IsCharging (parseBatteryInfoLine line r))"
proof (intro impI, elim conjE)
  assume sp: "SplitN2 (TrimSpace line) (CHR ''='') = [k, v]"
    and k: "TrimSpace k = ''BatteryStatus''" and a: "Atoi (TrimSpace v) = Inr status"
  from sp have ne: "TrimSpace line \<noteq> []"
    by (auto simp: SplitN2_def split: if_splits)
  have "parseBatteryInfoLine line r =
      r\<lparr>IsOnBattery := (status = 1), IsCharging := (status \<ge> 2 \<and> status \<le> 5 \<and> status \<noteq> 2)\<rparr>"
    using ne by (simp add: parseBatteryInfoLine_def Let_def sp k a)
  then show "IsOnBattery (parseBatteryInfoLine line r) = (status = 1)
      \<and> IsCharging (parseBatteryInfoLine line r) = (3 \<le> status \<and> status \<le> 5)
      \<and> (status = 2 \<longrightarrow> \<not> IsOnBattery (parseBatteryInfoLine line r)
                         \<and> \<not> IsCharging (parseBatteryInfoLine line r))"
    by auto
qed

theorem batteryStatus_flags_witness:
  "SplitN2 (TrimSpace (''BatteryStatus=4'' @ [CHR 0x0D])) (CHR ''='') = [''BatteryStatus'', ''4'']
   \<and> TrimSpace ''BatteryStatus'' = ''BatteryStatus''
   \<and> Atoi (TrimSpace ''4'') = Inr 4
   \<and> \<not> IsOnBattery (parseBatteryInfoLine (''BatteryStatus=4'' @ [CHR 0x0D]) (mkReading 0 0))
   \<and> IsCharging (parseBatteryInfoLine (''BatteryStatus=4'' @ [CHR 0x0D]) (mkReading 0 0))"
  using batteryStatus_flags [of "''BatteryStatus=4'' @ [CHR 0x0D]" "''BatteryStatus''" "''4''" 4
      "mkReading 0 0"]
  by (simp add: TrimSpace_def isSpace_def SplitN2_def Atoi_def num_defs)

section \<open>The Linux monitor: the sign of the wattage\<close>

text \<open>
  Claim C7 says that the wattage of every reading is at least 0.  \<^verbatim>\<open>calculateWatts\<close> takes
  the absolute value of the product of voltage and current, and returns \<^verbatim>\<open>power_now\<close> as
  it parses, sign included: a battery whose \<^verbatim>\<open>power_now\<close> holds \<^verbatim>\<open>-5000000\<close> gives a
  reading of \<open>-5\<close> watts.
\<close>

theorem linux_power_now_keeps_sign:
  "Watts (LinuxMonitor_Read \<lparr>batteryPath = ''/sys/class/power_supply/BAT0'', acPath = []\<rparr>
      [''/sys/class/power_supply/BAT0/power_now'' \<mapsto> ''-5000000'' @ [CHR 0x0A]] 0) = - 5"
  by (simp add: LinuxMonitor_Read_def calculateWatts_def calculateBatteryPercent_def readFile_def
      Join_def TrimSpace_def isSpace_def float_defs Let_def)

section \<open>The pmset report: charging state\<close>

lemma Contains_sublist: "Contains s sub \<longleftrightarrow> sublist sub s"
  by (induction s) (auto simp: sublist_Cons_right)

lemma Contains_part:
  assumes "Contains s (p @ sub)"
  shows "Contains s sub"
proof -
  from assms obtain xs ys where "s = xs @ (p @ sub) @ ys"
    by (auto simp: Contains_sublist sublist_def)
  then have "s = (xs @ p) @ sub @ ys" by simp
  then show ?thesis
    unfolding Contains_sublist sublist_def by blast
qed

text \<open>
  Claim C9.  In a line of the battery report that the loop of \<^verbatim>\<open>parsePmset\<close> looks at (it
  contains \<^verbatim>\<open>InternalBattery\<close> or a percent sign), \<^verbatim>\<open>discharging\<close> or \<^verbatim>\<open>not charging\<close> in the
  lower-cased line sets \<^verbatim>\<open>IsCharging\<close> to false, and \<^verbatim>\<open>charging\<close> without either sets it to
  true.  Both tests could apply: a line that contains \<^verbatim>\<open>discharging\<close> or \<^verbatim>\<open>not charging\<close>
  contains \<^verbatim>\<open>charging\<close>.
\<close>

theorem pmset_discharging_wins:
  "(Contains line ''InternalBattery'' \<or> Contains line ''%'' \<longrightarrow>
      ((Contains (ToLower line) ''discharging'' \<or> Contains (ToLower line) ''not charging'')
         \<longrightarrow> IsCharging (parsePmsetLine line r) = False)
      \<and> (\<not> Contains (ToLower line) ''discharging'' \<and> \<not> Contains (ToLower line) ''not charging''
           \<and> Contains (ToLower line) ''charging''
         \<longrightarrow> IsCharging (parsePmsetLine line r) = True))
   \<and> (Contains (ToLower line) ''discharging'' \<longrightarrow> Contains (ToLower line) ''charging'')
   \<and> (Contains (ToLower line) ''not charging'' \<longrightarrow> Contains (ToLower line) ''charging'')"
proof (intro conjI impI)
  assume m: "Contains line ''InternalBattery'' \<or> Contains line ''%''"
  show "IsCharging (parsePmsetLine line r) = False"
    if "Contains (ToLower line) ''discharging'' \<or> Contains (ToLower line) ''not charging''"
    using m that by (auto simp: parsePmsetLine_def Let_def split: option.splits)
  show "IsCharging (parsePmsetLine line r) = True"
    if "\<not> Contains (ToLower line) ''discharging'' \<and> \<not> Contains (ToLower line) ''not charging''
           \<and> Contains (ToLower line) ''charging''"
    using m that by (auto simp: parsePmsetLine_def Let_def split: option.splits)
next
  show "Contains (ToLower line) ''charging''" if "Contains (ToLower line) ''discharging''"
    using Contains_part [of "ToLower line" "''dis''" "''charging''"] that by simp
  show "Contains (ToLower line) ''charging''" if "Contains (ToLower line) ''not charging''"
    using Contains_part [of "ToLower line" "''not ''" "''charging''"] that by simp
qed

text \<open>
  Two lines as \<^verbatim>\<open>pmset -g batt\<close> prints them: the first contains both \<^verbatim>\<open>discharging\<close> and
  \<^verbatim>\<open>charging\<close> and clears \<^verbatim>\<open>IsCharging\<close>, the second contains \<^verbatim>\<open>charging\<close> alone and sets
  it.
\<close>

lemma ToLower_pmsetLineDischarging:
  "ToLower pmsetLineDischarging =
     '' -internalbattery-0 (id=1234567)'' @ [CHR 0x09] @ ''85%; discharging; 4:12 remaining''"
  by (simp add: pmsetLineDischarging_def ToLower_def toLowerByte_def)

lemma ToLower_pmsetLineCharging:
  "ToLower pmsetLineCharging =
     '' -internalbattery-0 (id=1234567)'' @ [CHR 0x09] @ ''85%; charging; 0:45 remaining''"
  by (simp add: pmsetLineCharging_def ToLower_def toLowerByte_def)

lemma pmsetLineDischarging_facts:
  "Contains pmsetLineDischarging ''InternalBattery''"
  "Contains (ToLower pmsetLineDischarging) ''discharging''"
  "Contains (ToLower pmsetLineDischarging) ''charging''"
  unfolding ToLower_pmsetLineDischarging by (simp_all add: pmsetLineDischarging_def)

lemma pmsetLineCharging_facts:
  "Contains pmsetLineCharging ''InternalBattery''"
  "\<not> Contains (ToLower pmsetLineCharging) ''discharging''"
  "\<not> Contains (ToLower pmsetLineCharging) ''not charging''"
  "Contains (ToLower pmsetLineCharging) ''charging''"
  unfolding ToLower_pmsetLineCharging by (simp_all add: pmsetLineCharging_def)

theorem pmset_discharging_wins_witness:
  "Contains pmsetLineDischarging ''InternalBattery''
   \<and> Contains (ToLower pmsetLineDischarging) ''discharging''
   \<and> Contains (ToLower pmsetLineDischarging) ''charging''
   \<and> IsCharging (parsePmsetLine pmsetLineDischarging ((mkReading 0 0)\<lparr>IsCharging := True\<rparr>)) = False
   \<and> Contains pmsetLineCharging ''InternalBattery''
   \<and> \<not> Contains (ToLower pmsetLineCharging) ''discharging''
   \<and> \<not> Contains (ToLower pmsetLineCharging) ''not charging''
   \<and> Contains (ToLower pmsetLineCharging) ''charging''
   \<and> IsCharging (parsePmsetLine pmsetLineCharging (mkReading 0 0)) = True"
  using pmset_discharging_wins [of pmsetLineDischarging "(mkReading 0 0)\<lparr>IsCharging := True\<rparr>"]
    pmset_discharging_wins [of pmsetLineCharging "mkReading 0 0"]
  by (simp add: pmsetLineDischarging_facts pmsetLineCharging_facts)

end
